theory Spec2Isabelle
  imports Main "HOL-Library.Char_ord" "HOL-Library.List_Lexorder" "HOL-Library.Product_Lexorder"
    "HOL-Library.AList"
begin

section \<open>Python strings\<close>

text \<open>
  A Python \<open>str\<close> is modelled as a \<open>string\<close>, each \<open>char\<close> standing for one code point
  below 256. Ordering of strings is the lexicographic order on code points, as Python's
  comparison of \<open>str\<close> values.
\<close>

text \<open>\<open>s.startswith(p)\<close> and \<open>s.endswith(p)\<close>.\<close>

definition startswith :: "string \<Rightarrow> string \<Rightarrow> bool" where
  "startswith s p = (take (length p) s = p)"

definition endswith :: "string \<Rightarrow> string \<Rightarrow> bool" where
  "endswith s p = (length p \<le> length s \<and> drop (length s - length p) s = p)"

text \<open>\<open>s.split(d)\<close> for a one-character separator: never the empty list.\<close>

fun str_split :: "char \<Rightarrow> string \<Rightarrow> string list" where
  "str_split d [] = [[]]"
| "str_split d (c # cs) =
     (if c = d then [] # str_split d cs
      else (c # hd (str_split d cs)) # tl (str_split d cs))"

text \<open>\<open>s.join(xs)\<close>.\<close>

fun str_join :: "string \<Rightarrow> string list \<Rightarrow> string" where
  "str_join s [] = []"
| "str_join s [x] = x"
| "str_join s (x # y # ys) = x @ s @ str_join s (y # ys)"

text \<open>\<open>s.rfind(c)\<close>: the highest index of \<open>c\<close>, or \<open>-1\<close>.\<close>

fun rfind :: "string \<Rightarrow> char \<Rightarrow> int" where
  "rfind [] c = - 1"
| "rfind (x # xs) c =
     (let r = rfind xs c in if 0 \<le> r then r + 1 else if x = c then 0 else - 1)"

text \<open>
  \<open>s.lower()\<close> on code points below 256: the letters A to Z and the upper-case letters of
  the Latin-1 block (192 to 222 except the multiplication sign 215) move up by 32, which
  sets bit 5 of the code point.
\<close>

definition lower_char :: "char \<Rightarrow> char" where
  "lower_char c =
     (let n = (of_char c :: nat)
      in if (65 \<le> n \<and> n \<le> 90) \<or> (192 \<le> n \<and> n \<le> 222 \<and> n \<noteq> 215)
         then (case c of Char b0 b1 b2 b3 b4 b5 b6 b7 \<Rightarrow> Char b0 b1 b2 b3 b4 True b6 b7)
         else c)"

definition lower :: "string \<Rightarrow> string" where
  "lower s = map lower_char s"

text \<open>
  The line boundaries of \<open>str.splitlines\<close> below 256: LF, VT, FF, CR, FS, GS, RS and NEL;
  CR followed by LF is one boundary.
\<close>

definition LF :: char where "LF = CHR 0x0A"
definition CR :: char where "CR = CHR 0x0D"

definition is_linebreak :: "char \<Rightarrow> bool" where
  "is_linebreak c \<longleftrightarrow>
     c \<in> set [CHR 0x0A, CHR 0x0B, CHR 0x0C, CHR 0x0D, CHR 0x1C, CHR 0x1D, CHR 0x1E, CHR 0x85]"

text \<open>
  \<open>s.splitlines()\<close>: \<open>splitlines_from cur s\<close> scans \<open>s\<close> with \<open>cur\<close> the text of the line
  read so far. Every boundary closes a line, also an empty one; the end of the string
  closes a line only when there is text after the last boundary.
\<close>

fun splitlines_from :: "string \<Rightarrow> string \<Rightarrow> string list" where
  "splitlines_from cur [] = (if cur = [] then [] else [cur])"
| "splitlines_from cur [c] = (if is_linebreak c then [cur] else [cur @ [c]])"
| "splitlines_from cur (c # d # cs) =
     (if c = CR \<and> d = LF then cur # splitlines_from [] cs
      else if is_linebreak c then cur # splitlines_from [] (d # cs)
      else splitlines_from (cur @ [c]) (d # cs))"

definition splitlines :: "string \<Rightarrow> string list" where
  "splitlines s = splitlines_from [] s"

text \<open>\<open>str(n)\<close> for a natural number, and the format \<open>{n:4d}\<close>.\<close>

definition digit_char :: "nat \<Rightarrow> char" where
  "digit_char d = ''0123456789'' ! d"

fun str_nat :: "nat \<Rightarrow> string" where
  "str_nat n =
     (if n < 10 then [digit_char n] else str_nat (n div 10) @ [digit_char (n mod 10)])"

declare str_nat.simps [simp del]

definition format_4d :: "nat \<Rightarrow> string" where
  "format_4d n = replicate (4 - length (str_nat n)) (CHR '' '') @ str_nat n"

text \<open>\<open>enumerate(xs)\<close>, as a list of pairs.\<close>

definition enumerate0 :: "'a list \<Rightarrow> (nat \<times> 'a) list" where
  "enumerate0 xs = zip [0..<length xs] xs"


section \<open>The path functions of posixpath\<close>

definition sep :: char where "sep = CHR ''/''"

definition initial_slashes :: "string \<Rightarrow> nat" where
  "initial_slashes path =
     (if startswith path [sep]
      then (if startswith path [sep, sep] \<and> \<not> startswith path [sep, sep, sep] then 2 else 1)
      else 0)"

text \<open>
  The loop of \<open>normpath\<close> over the components: empty and \<open>.\<close> components are skipped, a
  \<open>..\<close> removes the component before it unless there is none to remove.
\<close>

fun normpath_comps :: "nat \<Rightarrow> string list \<Rightarrow> string list \<Rightarrow> string list" where
  "normpath_comps ini new_comps [] = new_comps"
| "normpath_comps ini new_comps (part # comps) =
     (if part = [] \<or> part = ''.'' then normpath_comps ini new_comps comps
      else if part \<noteq> ''..'' \<or> (ini = 0 \<and> new_comps = [])
              \<or> (new_comps \<noteq> [] \<and> last new_comps = ''..'')
      then normpath_comps ini (new_comps @ [part]) comps
      else if new_comps \<noteq> [] then normpath_comps ini (butlast new_comps) comps
      else normpath_comps ini new_comps comps)"

definition normpath :: "string \<Rightarrow> string" where
  "normpath path =
     (if path = [] then ''.''
      else let ini = initial_slashes path;
               comps = normpath_comps ini [] (str_split sep path);
               p = replicate ini sep @ str_join [sep] comps
           in if p = [] then ''.'' else p)"

text \<open>\<open>os.path.join(a, b)\<close>.\<close>

definition os_path_join :: "string \<Rightarrow> string \<Rightarrow> string" where
  "os_path_join a b =
     (if startswith b [sep] then b
      else if a = [] \<or> endswith a [sep] then a @ b
      else a @ [sep] @ b)"

text \<open>
  \<open>os.path.splitext(p)\<close>: the extension starts at the last dot of the last component,
  provided a character other than a dot stands before it in that component.
\<close>

definition splitext :: "string \<Rightarrow> string \<times> string" where
  "splitext p =
     (let sepIndex = rfind p sep; dotIndex = rfind p (CHR ''.'')
      in if sepIndex < dotIndex \<and>
            list_ex (\<lambda>c. c \<noteq> CHR ''.'')
              (take (nat (dotIndex - (sepIndex + 1))) (drop (nat (sepIndex + 1)) p))
         then (take (nat dotIndex) p, drop (nat dotIndex) p)
         else (p, []))"


section \<open>Configuration\<close>

definition VALID_EXTENSIONS :: "string list" where
  "VALID_EXTENSIONS =
     [''.js'', ''.ts'', ''.json'', ''.html'', ''.css'', ''.jsx'', ''.vue'', ''.scss'', ''.md'',
      ''.geojson'']"

definition EXCLUDE_DIRS :: "string list" where
  "EXCLUDE_DIRS = [''node_modules'', ''.git'', ''dist'', ''build'', ''coverage'']"

text \<open>The constants of the same names in appStructure.py.\<close>

definition appStructure_VALID_EXTENSIONS :: "string list" where
  "appStructure_VALID_EXTENSIONS =
     [''.js'', ''.ts'', ''.json'', ''.html'', ''.css'', ''.jsx'', ''.vue'', ''.scss'', ''.md'']"

definition appStructure_EXCLUDE_DIRS :: "string list" where
  "appStructure_EXCLUDE_DIRS = [''node_modules'', ''.git'', ''dist'', ''build'', ''coverage'']"


section \<open>The path filter\<close>

text \<open>
  \<open>should_include\<close> asks the file system whether its argument is a regular file. The
  answer of \<open>os.path.isfile\<close> is the first argument of the model: the state of the file
  system as far as the filter reads it.
\<close>

definition should_include :: "(string \<Rightarrow> bool) \<Rightarrow> string \<Rightarrow> bool" where
  "should_include isfile path =
     (let path_parts = str_split sep (normpath path)
      in if list_ex (\<lambda>part. part \<in> set EXCLUDE_DIRS) path_parts then False
         else if isfile path then lower (snd (splitext path)) \<in> set VALID_EXTENSIONS
         else True)"

text \<open>The filter of appStructure.py splits the path as it is given.\<close>

definition appStructure_should_include :: "(string \<Rightarrow> bool) \<Rightarrow> string \<Rightarrow> bool" where
  "appStructure_should_include isfile path =
     (let path_parts = str_split sep path
      in if list_ex (\<lambda>excl. excl \<in> set path_parts) appStructure_EXCLUDE_DIRS then False
         else if isfile path
              then lower (snd (splitext path)) \<in> set appStructure_VALID_EXTENSIONS
         else True)"


section \<open>Line numbering\<close>

definition format_line :: "nat \<Rightarrow> string \<Rightarrow> string" where
  "format_line i line = format_4d (i + 1) @ '' | '' @ line"

definition format_code :: "string \<Rightarrow> string \<Rightarrow> string" where
  "format_code content filename =
     str_join [LF] (map (\<lambda>(i, line). format_line i line) (enumerate0 (splitlines content)))"


section \<open>The file system\<close>

text \<open>
  The directory tree below the start directory, as \<open>os.scandir\<close> shows it to \<open>os.walk\<close>:
  \<open>Dir\<close> is a directory with its entries in the order of the listing, \<open>DirLink\<close> an entry
  that \<open>is_dir()\<close> accepts but the walk does not enter (a symbolic link to a directory,
  since \<open>followlinks\<close> is off, or a directory that cannot be listed), \<open>NonDir\<close> any other
  entry. Whether a \<open>NonDir\<close> entry is a regular file is what \<open>os.path.isfile\<close> answers;
  what reading a path gives is the function \<open>read_file\<close>, with \<open>Inl\<close> the text of the
  exception and \<open>Inr\<close> the decoded content.
\<close>

datatype fsnode =
    NonDir
  | Dir "(string \<times> fsnode) list"
  | DirLink

fun is_dir :: "fsnode \<Rightarrow> bool" where
  "is_dir NonDir = False"
| "is_dir (Dir entries) = True"
| "is_dir DirLink = True"

text \<open>
  \<open>os.walk(topdir)\<close>, top down. The loop body of each caller replaces \<open>dirs\<close> in place
  before the walk goes on, so the walk descends only into the names the caller kept:
  \<open>keep root d\<close> is the caller's test on the name \<open>d\<close> of the directory \<open>root\<close>. The triple
  the caller sees holds the directory names already filtered and all other names.
\<close>

fun os_walk ::
  "(string \<Rightarrow> string \<Rightarrow> bool) \<Rightarrow> string \<Rightarrow> fsnode \<Rightarrow> (string \<times> string list \<times> string list) list"
where
  "os_walk keep topdir (Dir entries) =
     (let dirs = map fst (filter (\<lambda>(name, node). is_dir node) entries);
          nondirs = map fst (filter (\<lambda>(name, node). \<not> is_dir node) entries)
      in (topdir, filter (keep topdir) dirs, nondirs) #
         concat (map (\<lambda>(name, node).
                        if is_dir node \<and> keep topdir name
                        then os_walk keep (os_path_join topdir name) node else [])
                     entries))"
| "os_walk keep topdir NonDir = []"
| "os_walk keep topdir DirLink = []"

text \<open>The test each pass applies to the directory names: line 120, 152 and 191 of app.py.\<close>

definition keep_dir :: "(string \<Rightarrow> bool) \<Rightarrow> string \<Rightarrow> string \<Rightarrow> bool" where
  "keep_dir isfile root d = should_include isfile (os_path_join root d)"

text \<open>The test on the file names: line 122, 153 and 202.\<close>

definition keep_files :: "(string \<Rightarrow> bool) \<Rightarrow> string \<Rightarrow> string list \<Rightarrow> string list" where
  "keep_files isfile root files =
     filter (\<lambda>f. should_include isfile (os_path_join root f)) files"


section \<open>The structure pass\<close>

text \<open>
  The flowables of the listing. \<open>DirItem root\<close> is the paragraph of the directory \<open>root\<close>,
  \<open>FileItem root f\<close> the paragraph of the file \<open>f\<close> in it; the indentation and the base
  name that the paragraph shows are computed from these.
\<close>

datatype structure_item = StructureHeader | DirItem string | FileItem string string

definition generate_directory_structure ::
  "(string \<Rightarrow> bool) \<Rightarrow> string \<Rightarrow> fsnode \<Rightarrow> structure_item list"
where
  "generate_directory_structure isfile startpath tree =
     foldl (\<lambda>acc (root, dirs, files).
              acc @ [DirItem root] @ map (FileItem root) (keep_files isfile root files))
       [StructureHeader]
       (os_walk (keep_dir isfile) startpath tree)"


section \<open>The content pass\<close>

text \<open>
  \<open>CodeHeader file_path\<close> is the header paragraph of a file (it shows the path relative
  to the root directory), \<open>Preformatted code\<close> the numbered text.
\<close>

datatype content_item = PageBreak | CodeHeader string | Preformatted string

text \<open>
  The files the loops of lines 150 and 155 visit, in order: each directory of the pruned
  walk with its surviving file names, sorted.
\<close>

definition content_files :: "(string \<Rightarrow> bool) \<Rightarrow> string \<Rightarrow> fsnode \<Rightarrow> (string \<times> string) list" where
  "content_files isfile root_dir tree =
     concat (map (\<lambda>(root, dirs, files). map (Pair root) (sort (keep_files isfile root files)))
                 (os_walk (keep_dir isfile) root_dir tree))"

text \<open>The body of the inner loop, lines 156 to 172, on the pair of contents and count.\<close>

definition content_step ::
  "(string \<Rightarrow> string + string) \<Rightarrow> content_item list \<times> nat \<Rightarrow> string \<times> string
     \<Rightarrow> content_item list \<times> nat"
where
  "content_step read_file state entry =
     (let (contents, file_count) = state;
          (root, filename) = entry;
          file_path = os_path_join root filename;
          content = (case read_file file_path of
                       Inr text \<Rightarrow> text
                     | Inl e \<Rightarrow> ''Error reading file: '' @ e);
          file_count = file_count + 1;
          code = format_code content filename
      in (contents @ [PageBreak, CodeHeader file_path, Preformatted code], file_count))"

definition generate_file_contents ::
  "(string \<Rightarrow> bool) \<Rightarrow> (string \<Rightarrow> string + string) \<Rightarrow> string \<Rightarrow> fsnode
     \<Rightarrow> content_item list \<times> nat"
where
  "generate_file_contents isfile read_file root_dir tree =
     foldl (content_step read_file) ([], 0) (content_files isfile root_dir tree)"


section \<open>The summary pass\<close>

text \<open>\<open>d.get(k, dflt)\<close> on a dictionary kept as an association list.\<close>

definition dict_get :: "('k \<times> 'v) list \<Rightarrow> 'k \<Rightarrow> 'v \<Rightarrow> 'v" where
  "dict_get d k dflt = (case map_of d k of None \<Rightarrow> dflt | Some v \<Rightarrow> v)"

text \<open>The files the loops of lines 200 to 202 let through: every directory is walked.\<close>

definition summary_files :: "(string \<Rightarrow> bool) \<Rightarrow> string \<Rightarrow> fsnode \<Rightarrow> (string \<times> string) list" where
  "summary_files isfile root_dir tree =
     concat (map (\<lambda>(root, dirs, files). map (Pair root) (keep_files isfile root files))
                 (os_walk (\<lambda>root d. True) root_dir tree))"

text \<open>Lines 203 and 204.\<close>

definition tally_step :: "(string \<times> nat) list \<Rightarrow> string \<times> string \<Rightarrow> (string \<times> nat) list" where
  "tally_step ext_counts entry =
     (let (root, filename) = entry;
          ext = lower (snd (splitext filename))
      in AList.update ext (dict_get ext_counts ext 0 + 1) ext_counts)"

definition ext_counts_of :: "(string \<Rightarrow> bool) \<Rightarrow> string \<Rightarrow> fsnode \<Rightarrow> (string \<times> nat) list" where
  "ext_counts_of isfile root_dir tree = foldl tally_step [] (summary_files isfile root_dir tree)"

text \<open>
  What the summary page shows: the two totals and the rows of the table. The project
  root and the time stamp are left out.
\<close>

record summary =
  total_directories :: nat
  total_files_documented :: nat
  file_type_data :: "string list list"

definition generate_project_summary ::
  "(string \<Rightarrow> bool) \<Rightarrow> string \<Rightarrow> nat \<Rightarrow> fsnode \<Rightarrow> summary"
where
  "generate_project_summary isfile root_dir file_count tree =
     (let dir_count = foldl (\<lambda>dir_count triple. dir_count + 1) 0
                        (os_walk (keep_dir isfile) root_dir tree);
          ext_counts = ext_counts_of isfile root_dir tree
      in \<lparr> total_directories = dir_count,
           total_files_documented = file_count,
           file_type_data =
             [''File Type'', ''Count''] #
             map (\<lambda>(ext, count). [if ext \<noteq> [] then ext else ''No Extension'', str_nat count])
                 (sort ext_counts) \<rparr>)"


section \<open>The document\<close>

record document =
  structure_section :: "structure_item list"
  content_section :: "content_item list"
  summary_section :: summary

definition generate_pdf ::
  "(string \<Rightarrow> bool) \<Rightarrow> (string \<Rightarrow> string + string) \<Rightarrow> string \<Rightarrow> fsnode \<Rightarrow> document"
where
  "generate_pdf isfile read_file root_dir tree =
     (let (file_contents, file_count) = generate_file_contents isfile read_file root_dir tree
      in \<lparr> structure_section = generate_directory_structure isfile root_dir tree,
           content_section = file_contents,
           summary_section = generate_project_summary isfile root_dir file_count tree \<rparr>)"


section \<open>Notions used by the statements\<close>

text \<open>A path is excluded when a part of its normalised form is an excluded name.\<close>

definition excluded_path :: "string \<Rightarrow> bool" where
  "excluded_path path =
     list_ex (\<lambda>part. part \<in> set EXCLUDE_DIRS) (str_split sep (normpath path))"

text \<open>The parts that \<open>normpath\<close> keeps.\<close>

definition norm_parts :: "string \<Rightarrow> string list" where
  "norm_parts path = normpath_comps (initial_slashes path) [] (str_split sep path)"

text \<open>What a directory listing can hold as a name.\<close>

definition valid_name :: "string \<Rightarrow> bool" where
  "valid_name n \<longleftrightarrow> n \<noteq> [] \<and> sep \<notin> set n \<and> n \<noteq> ''.'' \<and> n \<noteq> ''..''"

fun valid_names :: "fsnode \<Rightarrow> bool" where
  "valid_names (Dir entries) =
     list_all (\<lambda>(name, node). valid_name name \<and> valid_names node) entries"
| "valid_names NonDir = True"
| "valid_names DirLink = True"

text \<open>
  The answers of \<open>os.path.isfile\<close> agree with the tree when no entry that the listing
  shows as a directory is reported as a regular file.
\<close>

fun dirs_not_files :: "(string \<Rightarrow> bool) \<Rightarrow> string \<Rightarrow> fsnode \<Rightarrow> bool" where
  "dirs_not_files isfile topdir (Dir entries) =
     list_all (\<lambda>(name, node).
                 (if is_dir node then \<not> isfile (os_path_join topdir name) else True) \<and>
                 dirs_not_files isfile (os_path_join topdir name) node) entries"
| "dirs_not_files isfile topdir NonDir = True"
| "dirs_not_files isfile topdir DirLink = True"

text \<open>Every directory of the tree, and every other entry with its directory.\<close>

definition tree_dirs :: "string \<Rightarrow> fsnode \<Rightarrow> string list" where
  "tree_dirs topdir tree = map fst (os_walk (\<lambda>root d. True) topdir tree)"

definition tree_files :: "string \<Rightarrow> fsnode \<Rightarrow> (string \<times> string) list" where
  "tree_files topdir tree =
     concat (map (\<lambda>(root, dirs, files). map (Pair root) files)
                 (os_walk (\<lambda>root d. True) topdir tree))"

definition entry_path :: "string \<times> string \<Rightarrow> string" where
  "entry_path entry = os_path_join (fst entry) (snd entry)"

text \<open>The same for the filter of appStructure.py, on the parts of the path as given.\<close>

definition raw_excluded_path :: "string \<Rightarrow> bool" where
  "raw_excluded_path path =
     list_ex (\<lambda>excl. excl \<in> set (str_split sep path)) appStructure_EXCLUDE_DIRS"


section \<open>An example\<close>

text \<open>
  The project of the specification's example, at \<open>/p\<close>: two files in \<open>src\<close>, a README,
  a package below \<open>node_modules\<close> and the empty directory \<open>assets\<close>; in addition a file
  without extension, a file whose read fails, and a socket.
\<close>

definition example_tree :: fsnode where
  "example_tree = Dir
     [(''README.md'', NonDir),
      (''assets'', Dir []),
      (''node_modules'', Dir [(''pkg'', Dir [(''index.js'', NonDir)])]),
      (''Makefile'', NonDir),
      (''src'', Dir [(''styles.css'', NonDir), (''index.js'', NonDir), (''sock'', NonDir)])]"

definition example_isfile :: "string \<Rightarrow> bool" where
  "example_isfile p \<longleftrightarrow>
     p \<in> set [''/p/README.md'', ''/p/Makefile'', ''/p/src/styles.css'', ''/p/src/index.js'',
              ''/p/node_modules/pkg/index.js'']"

definition example_read :: "string \<Rightarrow> string + string" where
  "example_read p =
     (if p = ''/p/src/index.js'' then Inr (''a = 1'' @ [LF] @ ''b = 2'' @ [LF])
      else if p = ''/p/src/styles.css'' then Inr ''p {}''
      else if p = ''/p/README.md'' then Inl ''[Errno 13] Permission denied''
      else Inl ''[Errno 6] No such device or address'')"

text \<open>A file system in which every path is a regular file.\<close>

definition every_path_is_file :: "string \<Rightarrow> bool" where
  "every_path_is_file p = True"


section \<open>Splitting and joining\<close>

lemma str_split_not_Nil: "str_split d s \<noteq> []"
  by (induction s) auto

lemma str_split_append_sep: "str_split d (a @ d # b) = str_split d a @ str_split d b"
proof (induction a)
  case Nil
  show ?case by simp
next
  case (Cons c a)
  show ?case
  proof (cases "c = d")
    case True
    with Cons show ?thesis by simp
  next
    case False
    have "str_split d a \<noteq> []" by (rule str_split_not_Nil)
    with False Cons show ?thesis by simp
  qed
qed

lemma str_split_no_sep: "d \<notin> set a \<Longrightarrow> str_split d a = [a]"
  by (induction a) auto

lemma str_split_parts_no_sep: "x \<in> set (str_split d s) \<Longrightarrow> d \<notin> set x"
proof (induction s arbitrary: x)
  case Nil
  then show ?case by simp
next
  case (Cons c s)
  have ne: "str_split d s \<noteq> []" by (rule str_split_not_Nil)
  show ?case
  proof (cases "c = d")
    case True
    with Cons show ?thesis by auto
  next
    case False
    with Cons.prems have "x = c # hd (str_split d s) \<or> x \<in> set (tl (str_split d s))"
      by simp
    then show ?thesis
    proof
      assume "x = c # hd (str_split d s)"
      moreover have "hd (str_split d s) \<in> set (str_split d s)" using ne by simp
      ultimately show ?thesis using Cons.IH False by auto
    next
      assume "x \<in> set (tl (str_split d s))"
      then have "x \<in> set (str_split d s)" using ne by (meson list.set_sel(2))
      then show ?thesis by (rule Cons.IH)
    qed
  qed
qed

lemma str_split_join:
  "xs \<noteq> [] \<Longrightarrow> \<forall>x\<in>set xs. d \<notin> set x \<Longrightarrow> str_split d (str_join [d] xs) = xs"
proof (induction xs)
  case Nil
  then show ?case by simp
next
  case (Cons x xs)
  show ?case
  proof (cases xs)
    case Nil
    with Cons.prems show ?thesis by (simp add: str_split_no_sep)
  next
    case (Cons y ys)
    with Cons.IH Cons.prems have "str_split d (str_join [d] xs) = xs" by simp
    with Cons Cons.prems show ?thesis
      by (simp add: str_split_append_sep str_split_no_sep)
  qed
qed

lemma str_split_replicate_sep:
  "str_split d (replicate k d @ s) = replicate k [] @ str_split d s"
  by (induction k) auto

lemma normpath_comps_append:
  "normpath_comps ini acc (xs @ ys) = normpath_comps ini (normpath_comps ini acc xs) ys"
  by (induction xs arbitrary: acc) auto

lemma normpath_comps_ini:
  "(ini = 0 \<longleftrightarrow> ini' = 0) \<Longrightarrow> normpath_comps ini acc xs = normpath_comps ini' acc xs"
  by (induction xs arbitrary: acc) auto

lemma normpath_comps_subset:
  "set (normpath_comps ini acc xs) \<subseteq> set acc \<union> (set xs - {[], ''.''})"
proof (induction xs arbitrary: acc)
  case Nil
  show ?case by simp
next
  case (Cons x xs)
  have b: "set (butlast acc) \<subseteq> set acc" by (auto dest: in_set_butlastD)
  show ?case
    using Cons.IH[of acc] Cons.IH[of "acc @ [x]"] Cons.IH[of "butlast acc"] b
    by (auto simp del: butlast.simps split: if_splits)
qed

lemma EXCLUDE_DIRS_nonempty: "[] \<notin> set EXCLUDE_DIRS" "''.'' \<notin> set EXCLUDE_DIRS"
  by (simp_all add: EXCLUDE_DIRS_def)

lemma norm_parts_no_sep: "x \<in> set (norm_parts p) \<Longrightarrow> sep \<notin> set x"
  using normpath_comps_subset[of "initial_slashes p" "[]" "str_split sep p"]
    str_split_parts_no_sep[of x sep p]
  by (auto simp: norm_parts_def)

lemma norm_parts_nonempty: "[] \<notin> set (norm_parts p)"
  using normpath_comps_subset[of "initial_slashes p" "[]" "str_split sep p"]
  by (auto simp: norm_parts_def)

lemma str_join_Nil_iff: "[] \<notin> set xs \<Longrightarrow> str_join s xs = [] \<longleftrightarrow> xs = []"
  by (induction s xs rule: str_join.induct) auto

lemma split_normpath:
  "set (str_split sep (normpath p)) - {[], ''.''} = set (norm_parts p)  - {[], ''.''}"
proof (cases "p = []")
  case True
  then show ?thesis by (simp add: normpath_def norm_parts_def)
next
  case False
  let ?cs = "norm_parts p"
  let ?q = "replicate (initial_slashes p) sep @ str_join [sep] ?cs"
  have np: "normpath p = (if ?q = [] then ''.'' else ?q)"
    using False unfolding normpath_def norm_parts_def Let_def by auto
  show ?thesis
  proof (cases "?cs = []")
    case True
    then show ?thesis
      using np str_split_replicate_sep[of sep "initial_slashes p" "[]"]
      by (auto simp: sep_def)
  next
    case ne: False
    have "str_split sep (str_join [sep] ?cs) = ?cs"
      using ne norm_parts_no_sep by (intro str_split_join) auto
    moreover have "?q \<noteq> []"
      using ne norm_parts_nonempty[of p] by (simp add: str_join_Nil_iff)
    with np have "normpath p = ?q" by (simp only: if_False)
    ultimately have "str_split sep (normpath p) = replicate (initial_slashes p) [] @ ?cs"
      by (simp only: str_split_replicate_sep)
    then show ?thesis by auto
  qed
qed

lemma excluded_path_iff: "excluded_path p \<longleftrightarrow> (\<exists>x\<in>set (norm_parts p). x \<in> set EXCLUDE_DIRS)"
proof -
  have "excluded_path p \<longleftrightarrow> (\<exists>x\<in>set (str_split sep (normpath p)) - {[], ''.''}. x \<in> set EXCLUDE_DIRS)"
    using EXCLUDE_DIRS_nonempty by (auto simp: excluded_path_def list_ex_iff)
  also have "\<dots> \<longleftrightarrow> (\<exists>x\<in>set (norm_parts p) - {[], ''.''}. x \<in> set EXCLUDE_DIRS)"
    by (simp only: split_normpath)
  also have "\<dots> \<longleftrightarrow> (\<exists>x\<in>set (norm_parts p). x \<in> set EXCLUDE_DIRS)"
    using EXCLUDE_DIRS_nonempty by auto
  finally show ?thesis .
qed

lemma normpath_comps_valid: "valid_name n \<Longrightarrow> normpath_comps ini acc [n] = acc @ [n]"
  by (simp add: valid_name_def)

lemma startswith_sep: "startswith p [sep] \<longleftrightarrow> (p \<noteq> [] \<and> hd p = sep)"
  by (cases p) (auto simp: startswith_def)

lemma initial_slashes_0: "initial_slashes p = 0 \<longleftrightarrow> \<not> startswith p [sep]"
  by (simp add: initial_slashes_def)

lemma endswith_sep: "endswith p [sep] \<longleftrightarrow> (p \<noteq> [] \<and> last p = sep)"
proof (cases p rule: rev_cases)
  case Nil
  then show ?thesis by (simp add: endswith_def)
next
  case (snoc ys y)
  then show ?thesis by (auto simp: endswith_def)
qed

lemma norm_parts_join:
  assumes "valid_name n"
  shows "norm_parts (os_path_join root n) = norm_parts root @ [n]"
proof -
  from assms have n: "n \<noteq> []" "sep \<notin> set n" "hd n \<noteq> sep"
    by (auto simp: valid_name_def) (metis list.set_sel(1))
  then have nsw: "\<not> startswith n [sep]" by (simp add: startswith_sep)
  show ?thesis
  proof (cases "root = []")
    case True
    then have "os_path_join root n = n" by (simp add: os_path_join_def)
    then show ?thesis
      using True n assms by (simp add: norm_parts_def str_split_no_sep valid_name_def)
  next
    case False
    have ini: "initial_slashes (os_path_join root n) = 0 \<longleftrightarrow> initial_slashes root = 0"
      using False nsw by (cases root) (auto simp: initial_slashes_0 startswith_sep os_path_join_def)
    show ?thesis
    proof (cases "endswith root [sep]")
      case True
      then obtain r where r: "root = r @ [sep]"
        by (metis endswith_sep append_butlast_last_id)
      then have j: "os_path_join root n = r @ sep # n"
        using nsw True by (simp add: os_path_join_def)
      have "str_split sep (os_path_join root n) = str_split sep r @ [n]"
        using j n by (simp add: str_split_append_sep str_split_no_sep)
      moreover have "str_split sep root = str_split sep r @ [[]]"
        using r by (simp add: str_split_append_sep)
      ultimately show ?thesis
        unfolding norm_parts_def normpath_comps_ini[OF ini]
        by (simp only: normpath_comps_append normpath_comps_valid[OF assms])
          (simp add: normpath_comps_valid[OF assms])
    next
      case nend: False
      then have j: "os_path_join root n = root @ sep # n"
        using nsw False by (simp add: os_path_join_def)
      have "str_split sep (os_path_join root n) = str_split sep root @ [n]"
        using j n by (simp add: str_split_append_sep str_split_no_sep)
      then show ?thesis
        unfolding norm_parts_def normpath_comps_ini[OF ini]
        by (simp only: normpath_comps_append normpath_comps_valid[OF assms])
    qed
  qed
qed

lemma excluded_path_join:
  "valid_name n \<Longrightarrow>
   excluded_path (os_path_join root n) \<longleftrightarrow> excluded_path root \<or> n \<in> set EXCLUDE_DIRS"
  by (auto simp: excluded_path_iff norm_parts_join)


section \<open>The two filters, unfolded\<close>

lemma should_include_iff:
  "should_include isfile path \<longleftrightarrow>
     \<not> excluded_path path \<and>
     (isfile path \<longrightarrow> lower (snd (splitext path)) \<in> set VALID_EXTENSIONS)"
  by (simp add: should_include_def excluded_path_def Let_def)

lemma appStructure_should_include_iff:
  "appStructure_should_include isfile path \<longleftrightarrow>
     \<not> raw_excluded_path path \<and>
     (isfile path \<longrightarrow> lower (snd (splitext path)) \<in> set appStructure_VALID_EXTENSIONS)"
  by (simp add: appStructure_should_include_def raw_excluded_path_def Let_def)

section \<open>The path filter on files\<close>

text \<open>
  Claim C4. For a path that is a regular file and has no excluded part, the filter of
  app.py answers true exactly when the lower-cased extension of the path, with its dot,
  is one of \<open>VALID_EXTENSIONS\<close>; a file without extension is refused. The same holds
  for the filter of appStructure.py with its own list and the parts of the path as given.
\<close>

theorem file_included_iff_extension_allowed:
  "(isfile path \<and> \<not> excluded_path path \<longrightarrow>
      (should_include isfile path \<longleftrightarrow>
         lower (snd (splitext path)) \<in> set VALID_EXTENSIONS) \<and>
      (snd (splitext path) = [] \<longrightarrow> \<not> should_include isfile path)) \<and>
   (isfile path \<and> \<not> raw_excluded_path path \<longrightarrow>
      (appStructure_should_include isfile path \<longleftrightarrow>
         lower (snd (splitext path)) \<in> set appStructure_VALID_EXTENSIONS) \<and>
      (snd (splitext path) = [] \<longrightarrow> \<not> appStructure_should_include isfile path))"
  by (auto simp: should_include_iff appStructure_should_include_iff lower_def
      VALID_EXTENSIONS_def appStructure_VALID_EXTENSIONS_def)

theorem file_included_iff_extension_allowed_witness:
  "example_isfile ''/p/src/index.js'' \<and> \<not> excluded_path ''/p/src/index.js'' \<and>
   \<not> raw_excluded_path ''/p/src/index.js'' \<and>
   should_include example_isfile ''/p/src/index.js'' \<and>
   appStructure_should_include example_isfile ''/p/src/index.js''"
proof -
  have a: "example_isfile ''/p/src/index.js''" by (simp add: example_isfile_def)
  have b: "\<not> excluded_path ''/p/src/index.js''" by code_simp
  have c: "\<not> raw_excluded_path ''/p/src/index.js''" by code_simp
  have d: "lower (snd (splitext ''/p/src/index.js'')) = ''.js''" by code_simp
  show ?thesis
    using file_included_iff_extension_allowed [of example_isfile "''/p/src/index.js''"] a b c d
    by (simp add: VALID_EXTENSIONS_def appStructure_VALID_EXTENSIONS_def)
qed


section \<open>The path filter on what is not a regular file\<close>

text \<open>
  Claim C10. A path that \<open>os.path.isfile\<close> does not accept (a directory, a broken link,
  a path that does not exist) and that has no excluded part is included whatever its
  extension: the extension is tested for regular files only. This holds for the filter
  of app.py and for the filter of appStructure.py.
\<close>

theorem non_file_included_whatever_extension:
  "(\<not> isfile path \<and> \<not> excluded_path path \<longrightarrow> should_include isfile path) \<and>
   (\<not> isfile path \<and> \<not> raw_excluded_path path \<longrightarrow> appStructure_should_include isfile path)"
  by (simp add: should_include_iff appStructure_should_include_iff)

theorem non_file_included_whatever_extension_witness:
  "\<not> example_isfile ''/p/data.bin'' \<and> \<not> excluded_path ''/p/data.bin'' \<and>
   \<not> raw_excluded_path ''/p/data.bin'' \<and>
   lower (snd (splitext ''/p/data.bin'')) \<notin> set VALID_EXTENSIONS \<and>
   should_include example_isfile ''/p/data.bin'' \<and>
   appStructure_should_include example_isfile ''/p/data.bin''"
proof -
  have a: "\<not> example_isfile ''/p/data.bin''" by (simp add: example_isfile_def)
  have b: "\<not> excluded_path ''/p/data.bin''" by code_simp
  have c: "\<not> raw_excluded_path ''/p/data.bin''" by code_simp
  have d: "lower (snd (splitext ''/p/data.bin'')) \<notin> set VALID_EXTENSIONS" by code_simp
  show ?thesis
    using non_file_included_whatever_extension [of example_isfile "''/p/data.bin''"] a b c d
    by simp
qed


section \<open>The two filters compared\<close>

lemma EXCLUDE_DIRS_same: "appStructure_EXCLUDE_DIRS = EXCLUDE_DIRS"
  by (simp add: EXCLUDE_DIRS_def appStructure_EXCLUDE_DIRS_def)

lemma raw_excluded_path_iff:
  "raw_excluded_path path \<longleftrightarrow> (\<exists>x\<in>set (str_split sep path). x \<in> set EXCLUDE_DIRS)"
  unfolding raw_excluded_path_def EXCLUDE_DIRS_same list_ex_iff by blast

lemma VALID_EXTENSIONS_compared:
  "set VALID_EXTENSIONS = insert ''.geojson'' (set appStructure_VALID_EXTENSIONS)"
  "''.geojson'' \<notin> set appStructure_VALID_EXTENSIONS"
proof -
  have "VALID_EXTENSIONS = appStructure_VALID_EXTENSIONS @ [''.geojson'']"
    by (simp add: VALID_EXTENSIONS_def appStructure_VALID_EXTENSIONS_def)
  then have "set VALID_EXTENSIONS = set appStructure_VALID_EXTENSIONS \<union> {''.geojson''}"
    by (metis set_append list.simps(15) empty_set)
  then show "set VALID_EXTENSIONS = insert ''.geojson'' (set appStructure_VALID_EXTENSIONS)"
    by blast
  show "''.geojson'' \<notin> set appStructure_VALID_EXTENSIONS"
    by (simp add: appStructure_VALID_EXTENSIONS_def)
qed

lemma normpath_comps_no_dotdot:
  "''..'' \<notin> set xs \<Longrightarrow>
   normpath_comps ini acc xs = acc @ filter (\<lambda>c. c \<noteq> [] \<and> c \<noteq> ''.'') xs"
  by (induction xs arbitrary: acc) auto

lemma excluded_path_imp_raw:
  assumes "excluded_path path"
  shows "raw_excluded_path path"
proof -
  from assms obtain x where x: "x \<in> set (norm_parts path)" "x \<in> set EXCLUDE_DIRS"
    unfolding excluded_path_iff by blast
  have "set (norm_parts path) \<subseteq> set (str_split sep path)"
    using normpath_comps_subset[of "initial_slashes path" "[]" "str_split sep path"]
    unfolding norm_parts_def by auto
  with x(1) have "x \<in> set (str_split sep path)" by blast
  with x(2) show ?thesis unfolding raw_excluded_path_iff by blast
qed

lemma excluded_path_raw:
  assumes "''..'' \<notin> set (str_split sep path)"
  shows "excluded_path path \<longleftrightarrow> raw_excluded_path path"
proof
  assume "excluded_path path"
  then show "raw_excluded_path path" by (rule excluded_path_imp_raw)
next
  assume "raw_excluded_path path"
  then obtain x where x: "x \<in> set (str_split sep path)" "x \<in> set EXCLUDE_DIRS"
    unfolding raw_excluded_path_iff by blast
  have ne: "x \<noteq> []" "x \<noteq> ''.''"
    using x(2) EXCLUDE_DIRS_nonempty by metis+
  have np: "norm_parts path = filter (\<lambda>c. c \<noteq> [] \<and> c \<noteq> ''.'') (str_split sep path)"
    using assms by (simp add: norm_parts_def normpath_comps_no_dotdot)
  have "x \<in> set (norm_parts path)"
    unfolding np using x(1) ne by simp
  with x(2) show "excluded_path path"
    unfolding excluded_path_iff by blast
qed

text \<open>
  Claim C9, as the code has it. The list of appStructure.py holds \<open>.scss\<close>, \<open>.jsx\<close> and
  \<open>.vue\<close> and lacks only \<open>.geojson\<close> of the list of app.py; its filter splits the path as
  given where app.py splits the normalised path. On a path without a \<open>..\<close> part the two
  filters differ exactly on the regular files with no excluded part whose lower-cased
  extension is \<open>.geojson\<close>, which app.py includes and appStructure.py refuses.
\<close>

theorem filters_differ_only_on_geojson:
  "set VALID_EXTENSIONS = insert ''.geojson'' (set appStructure_VALID_EXTENSIONS) \<and>
   ''.geojson'' \<notin> set appStructure_VALID_EXTENSIONS \<and>
   (''..'' \<notin> set (str_split sep path) \<longrightarrow>
      (should_include isfile path \<noteq> appStructure_should_include isfile path \<longleftrightarrow>
         isfile path \<and> \<not> excluded_path path \<and>
         lower (snd (splitext path)) = ''.geojson'') \<and>
      (should_include isfile path \<noteq> appStructure_should_include isfile path \<longrightarrow>
         should_include isfile path))"
proof -
  let ?ext = "lower (snd (splitext path))"
  have v: "?ext \<in> set VALID_EXTENSIONS \<longleftrightarrow>
      ?ext = ''.geojson'' \<or> ?ext \<in> set appStructure_VALID_EXTENSIONS"
    by (simp only: VALID_EXTENSIONS_compared(1) insert_iff)
  have g: "?ext = ''.geojson'' \<Longrightarrow> ?ext \<notin> set appStructure_VALID_EXTENSIONS"
    using VALID_EXTENSIONS_compared(2) by simp
  have "''..'' \<notin> set (str_split sep path) \<Longrightarrow>
      (should_include isfile path \<noteq> appStructure_should_include isfile path \<longleftrightarrow>
         isfile path \<and> \<not> excluded_path path \<and> ?ext = ''.geojson'') \<and>
      (should_include isfile path \<noteq> appStructure_should_include isfile path \<longrightarrow>
         should_include isfile path)"
    unfolding should_include_iff appStructure_should_include_iff
    using v g excluded_path_raw[of path] by blast
  then show ?thesis
    using VALID_EXTENSIONS_compared by blast
qed

theorem filters_differ_only_on_geojson_witness:
  "''..'' \<notin> set (str_split sep ''/p/map.GeoJSON'') \<and>
   should_include every_path_is_file ''/p/map.GeoJSON'' \<and>
   \<not> appStructure_should_include every_path_is_file ''/p/map.GeoJSON'' \<and>
   lower (snd (splitext ''/p/map.GeoJSON'')) = ''.geojson''"
proof -
  have a: "''..'' \<notin> set (str_split sep ''/p/map.GeoJSON'')" by code_simp
  have b: "every_path_is_file ''/p/map.GeoJSON''" by (simp add: every_path_is_file_def)
  have c: "\<not> excluded_path ''/p/map.GeoJSON''" by code_simp
  have d: "lower (snd (splitext ''/p/map.GeoJSON'')) = ''.geojson''" by code_simp
  have e: "should_include every_path_is_file ''/p/map.GeoJSON''" by code_simp
  show ?thesis
    using filters_differ_only_on_geojson [of "''/p/map.GeoJSON''" every_path_is_file] a b c d e
    by simp
qed

text \<open>
  The claim as written fails: \<open>.scss\<close>, \<open>.jsx\<close> and \<open>.vue\<close> are in the list of
  appStructure.py, and the two filters disagree on a \<open>.js\<close> file whose path loses an
  excluded part by normalisation.
\<close>

theorem filters_claim_counterexample:
  "''.scss'' \<in> set appStructure_VALID_EXTENSIONS \<and>
   ''.jsx'' \<in> set appStructure_VALID_EXTENSIONS \<and>
   ''.vue'' \<in> set appStructure_VALID_EXTENSIONS \<and>
   appStructure_should_include every_path_is_file ''/p/style.scss'' \<and>
   should_include every_path_is_file ''node_modules/../a.js'' \<and>
   \<not> appStructure_should_include every_path_is_file ''node_modules/../a.js'' \<and>
   lower (snd (splitext ''node_modules/../a.js'')) = ''.js''"
proof -
  have a: "''.scss'' \<in> set appStructure_VALID_EXTENSIONS"
    "''.jsx'' \<in> set appStructure_VALID_EXTENSIONS"
    "''.vue'' \<in> set appStructure_VALID_EXTENSIONS"
    by (simp_all add: appStructure_VALID_EXTENSIONS_def)
  have b: "appStructure_should_include every_path_is_file ''/p/style.scss''"
    by code_simp
  have c: "should_include every_path_is_file ''node_modules/../a.js''"
    by code_simp
  have d: "\<not> appStructure_should_include every_path_is_file ''node_modules/../a.js''"
    by code_simp
  have e: "lower (snd (splitext ''node_modules/../a.js'')) = ''.js''"
    by code_simp
  from a b c d e show ?thesis by (intro conjI)
qed

end
